theory Spec2Isabelle
  imports Main
begin

section \<open>The download-completion detector of MFASecurefileDownloader.py\<close>

text \<open>
  The function \<^verbatim>\<open>get_downloaded_filename(driver, download_dir, timeout)\<close> polls a
  directory until a new file has kept one non-zero size for
  \<^verbatim>\<open>DOWNLOAD_STABILITY_TIME\<close> seconds, or until \<^verbatim>\<open>timeout\<close> seconds have gone by.

  Conventions of the embedding.
  \<^item> A clock reading of \<^verbatim>\<open>time.time()\<close>, a delay and a timeout are an \<open>int\<close>
    counting microseconds. The calls of one pass of the loop count as one instant
    \<open>now s\<close>; the time they take is added to the clock when the pass ends, together
    with the sleep (\<open>lag\<close> of the platform, which may be zero: a clock that moves
    only in \<^verbatim>\<open>time.sleep\<close>).
  \<^item> The source subtracts clock readings as doubles. A double difference is off by much
    less than a microsecond, so a comparison of it with a bound can only come out
    differently from the exact one when the exact difference equals the bound; what it
    gives there is left to the platform (\<open>rounds_below\<close>).
  \<^item> The directory is an environment \<open>w :: int \<Rightarrow> fs_state\<close>: what the file system
    calls of the source answer at each instant.
  \<^item> A Python \<^verbatim>\<open>set\<close> of names is a duplicate-free list; its iteration order, which
    Python leaves open, is the order of the directory listing.
  \<^item> \<^verbatim>\<open>print\<close> is left out. The unused \<^verbatim>\<open>driver\<close> argument is left out.
\<close>

subsection \<open>Exceptions, the file system, the module constants\<close>

datatype exn = FileNotFoundError | OSError | ValueError

text \<open>
  What \<^verbatim>\<open>os.path.exists\<close> and \<^verbatim>\<open>os.path.getsize\<close> say about one path:
  \<open>Missing\<close>: \<^verbatim>\<open>exists\<close> is false; \<open>Unreadable\<close>: \<^verbatim>\<open>exists\<close> is true and
  \<^verbatim>\<open>getsize\<close> raises \<^verbatim>\<open>OSError\<close> (the case the source comments as "locked or
  inaccessible briefly"); \<open>Size n\<close>: \<^verbatim>\<open>getsize\<close> returns \<open>n\<close>.
\<close>

datatype fstat = Missing | Unreadable | Size nat

record fs_state =
  listdir :: "exn + string list"
  stat :: "string \<Rightarrow> fstat"
  removable :: "string \<Rightarrow> bool"

text \<open>
  \<open>listdir\<close> is the answer of \<^verbatim>\<open>os.listdir(download_dir)\<close> (\<open>Inl\<close> the exception),
  \<open>stat\<close> the state of \<^verbatim>\<open>os.path.join(download_dir, name)\<close>, and \<open>removable name\<close>
  tells whether \<^verbatim>\<open>os.remove\<close> of that path succeeds.
\<close>

record settings =
  DOWNLOAD_CHECK_INTERVAL :: int
  DOWNLOAD_STABILITY_TIME :: int

definition module_settings :: settings where
  "module_settings =
     \<lparr>DOWNLOAD_CHECK_INTERVAL = 1000000, DOWNLOAD_STABILITY_TIME = 3000000\<rparr>"

definition MAX_WAIT_TIME :: int where
  "MAX_WAIT_TIME = 300000000"

text \<open>The literal of \<^verbatim>\<open>time.sleep(0.1)\<close>.\<close>

definition retry_delay :: int where
  "retry_delay = 100000"

subsection \<open>The clock\<close>

text \<open>
  What the platform adds to the program: \<open>lag m t\<close> is the time that the pass
  beginning at the clock reading \<open>t\<close> spends outside \<^verbatim>\<open>time.sleep\<close>, and
  \<open>rounds_below m a b\<close> tells whether the double difference of the readings \<open>a\<close>
  and \<open>b\<close> falls below a bound that their exact difference equals
  (\<^verbatim>\<open>5.1 - 2.1\<close> is \<^verbatim>\<open>2.9999999999999996\<close>).
\<close>

record platform =
  lag :: "int \<Rightarrow> nat"
  rounds_below :: "int \<Rightarrow> int \<Rightarrow> bool"

text \<open>
  The test \<^verbatim>\<open>a - b < c\<close> of the source, on doubles. A reading minus itself is
  exactly zero.
\<close>

definition double_diff_less :: "platform \<Rightarrow> int \<Rightarrow> int \<Rightarrow> int \<Rightarrow> bool" where
  "double_diff_less m a b c \<longleftrightarrow>
     a - b < c \<or> (a - b = c \<and> a \<noteq> b \<and> rounds_below m a b)"

subsection \<open>Strings and sets of names\<close>

definition endswith :: "string \<Rightarrow> string \<Rightarrow> bool" where
  "endswith s suf \<longleftrightarrow>
     length suf \<le> length s \<and> drop (length s - length suf) s = suf"

text \<open>\<^verbatim>\<open>p.rfind(c)\<close>: the last index of \<open>c\<close> in \<open>p\<close>, or \<open>-1\<close>.\<close>

definition rfind :: "string \<Rightarrow> char \<Rightarrow> int" where
  "rfind p c =
     (case filter (\<lambda>i. p ! i = c) (rev [0..<length p]) of
        [] \<Rightarrow> - 1
      | i # _ \<Rightarrow> int i)"

text \<open>
  \<^verbatim>\<open>os.path.splitext(p)[0]\<close> (\<^verbatim>\<open>genericpath._splitext\<close> with separator \<^verbatim>\<open>/\<close>): the
  extension starts at the last dot, unless that dot comes before the last separator or
  only dots stand between the separator and it.
\<close>

definition splitext_root :: "string \<Rightarrow> string" where
  "splitext_root p =
     (let sepIndex = rfind p CHR ''/'';
          dotIndex = rfind p CHR ''.''
      in if sepIndex < dotIndex \<and>
            list_ex (\<lambda>i. p ! i \<noteq> CHR ''.'') [nat (sepIndex + 1)..<nat dotIndex]
         then take (nat dotIndex) p
         else p)"

text \<open>\<^verbatim>\<open>set(names) - initial_files\<close>, in listing order.\<close>

definition set_minus :: "string list \<Rightarrow> string list \<Rightarrow> string list" where
  "set_minus names initial_files =
     remdups (filter (\<lambda>n. n \<notin> set initial_files) names)"

subsection \<open>One pass of the polling loop\<close>

record poll_state =
  now :: int
  last_size :: int
  stable_time_start :: "int option"

record outcome =
  ret :: "string option"
  clock :: int
  removed :: "string list"

text \<open>
  An \<open>outcome\<close> is what a returning call leaves behind: the returned value
  (\<open>None\<close> is Python's \<^verbatim>\<open>None\<close>), the clock at the return, and the names
  \<^verbatim>\<open>os.remove\<close> was called on, in call order.
\<close>

datatype step = Continue poll_state | Return outcome | Raise exn

text \<open>
  \<^verbatim>\<open>time.sleep(d)\<close> at the end of a pass: it raises \<^verbatim>\<open>ValueError\<close> for a
  negative \<open>d\<close>; otherwise the next pass begins \<open>d\<close> plus the lag of this pass later.
\<close>

definition time_sleep :: "platform \<Rightarrow> int \<Rightarrow> poll_state \<Rightarrow> step" where
  "time_sleep m d s =
     (if d < 0 then Raise ValueError
      else Continue (s\<lparr>now := now s + d + int (lag m (now s))\<rparr>))"

text \<open>
  The \<^verbatim>\<open>for fname in new_files\<close> loop (source lines 82-93). The result is
  \<open>(downloading, potential_filename, active_download_fname)\<close>; the second argument
  is \<open>potential_filename\<close> so far.
\<close>

fun scan_new_files ::
  "string list \<Rightarrow> string option \<Rightarrow> bool \<times> string option \<times> string option" where
  "scan_new_files [] potential_filename = (False, potential_filename, None)"
| "scan_new_files (fname # rest) potential_filename =
     (if endswith fname ''.crdownload''
      then (True, Some (splitext_root fname), Some fname)
      else if \<not> endswith fname ''.tmp''
      then scan_new_files rest (Some fname)
      else scan_new_files rest potential_filename)"

text \<open>The truth value Python gives \<^verbatim>\<open>potential_filename\<close> in \<^verbatim>\<open>if potential_filename:\<close>.\<close>

definition truthy :: "string option \<Rightarrow> bool" where
  "truthy x \<longleftrightarrow> (case x of None \<Rightarrow> False | Some n \<Rightarrow> n \<noteq> [])"

text \<open>
  The body of the \<^verbatim>\<open>while\<close> loop (source lines 69-135), run on the file system \<open>fs\<close>
  of the instant \<open>now s\<close>. The test
  \<^verbatim>\<open>time.time() - stable_time_start >= DOWNLOAD_STABILITY_TIME\<close> of line 117 is the
  negation of \<^verbatim>\<open><\<close> on doubles.
\<close>

definition poll_once ::
  "settings \<Rightarrow> platform \<Rightarrow> fs_state \<Rightarrow> string list \<Rightarrow> poll_state \<Rightarrow> step" where
  "poll_once cfg m fs initial_files s =
     (case listdir fs of
        Inl e \<Rightarrow>
          if e = FileNotFoundError
          then Return \<lparr>ret = None, clock = now s, removed = []\<rparr>
          else Raise e
      | Inr names \<Rightarrow>
          let new_files = set_minus names initial_files in
          if new_files = [] then time_sleep m (DOWNLOAD_CHECK_INTERVAL cfg) s
          else
            (case scan_new_files new_files None of
               (downloading, potential_filename, active_download_fname) \<Rightarrow>
                 if downloading
                 then time_sleep m (DOWNLOAD_CHECK_INTERVAL cfg)
                        (s\<lparr>last_size := - 1, stable_time_start := None\<rparr>)
                 else if truthy potential_filename
                 then
                   (case stat fs (the potential_filename) of
                      Missing \<Rightarrow>
                        time_sleep m (DOWNLOAD_CHECK_INTERVAL cfg)
                          (s\<lparr>last_size := - 1, stable_time_start := None\<rparr>)
                    | Unreadable \<Rightarrow> time_sleep m retry_delay s
                    | Size current_size \<Rightarrow>
                        if int current_size = last_size s \<and> 0 < current_size
                        then
                          (case stable_time_start s of
                             None \<Rightarrow>
                               time_sleep m (DOWNLOAD_CHECK_INTERVAL cfg)
                                 (s\<lparr>stable_time_start := Some (now s)\<rparr>)
                           | Some t0 \<Rightarrow>
                               if \<not> double_diff_less m (now s) t0
                                      (DOWNLOAD_STABILITY_TIME cfg)
                               then Return \<lparr>ret = potential_filename, clock = now s,
                                            removed = []\<rparr>
                               else time_sleep m (DOWNLOAD_CHECK_INTERVAL cfg) s)
                        else
                          time_sleep m (DOWNLOAD_CHECK_INTERVAL cfg)
                            (s\<lparr>last_size := int current_size,
                               stable_time_start := None\<rparr>))
                 else time_sleep m (DOWNLOAD_CHECK_INTERVAL cfg) s))"

subsection \<open>The cleanup after the timeout\<close>

text \<open>
  \<^verbatim>\<open>os.remove\<close> inside its own \<^verbatim>\<open>try\<close>: a failure leaves the file system as it
  is (the source prints a warning).
\<close>

definition os_remove :: "fs_state \<Rightarrow> string \<Rightarrow> fs_state" where
  "os_remove fs fname =
     (if removable fs fname \<and> stat fs fname \<noteq> Missing
      then fs\<lparr>listdir := map_sum id (removeAll fname) (listdir fs),
              stat := (stat fs)(fname := Missing)\<rparr>
      else fs)"

text \<open>
  The \<^verbatim>\<open>for fname in new_files_on_timeout\<close> loop (source lines 142-152); the
  result lists the names \<^verbatim>\<open>os.remove\<close> was called on. A size query that raises
  leaves the loop through the outer \<^verbatim>\<open>except Exception\<close>: the names after it are
  not looked at.
\<close>

fun cleanup_loop :: "string list \<Rightarrow> fs_state \<Rightarrow> string list" where
  "cleanup_loop [] fs = []"
| "cleanup_loop (fname # rest) fs =
     (if endswith fname ''.crdownload''
      then
        (case stat fs (splitext_root fname) of
           Missing \<Rightarrow> fname # cleanup_loop rest (os_remove fs fname)
         | Unreadable \<Rightarrow> []
         | Size n \<Rightarrow>
             if 0 < n then cleanup_loop rest fs
             else fname # cleanup_loop rest (os_remove fs fname))
      else cleanup_loop rest fs)"

text \<open>Source lines 139-155: a listing that raises is swallowed as well.\<close>

definition cleanup :: "fs_state \<Rightarrow> string list \<Rightarrow> string list" where
  "cleanup fs initial_files =
     (case listdir fs of
        Inl e \<Rightarrow> []
      | Inr names \<Rightarrow> cleanup_loop (set_minus names initial_files) fs)"

subsection \<open>The whole function\<close>

text \<open>
  The \<^verbatim>\<open>while time.time() - start_time < timeout\<close> loop and what follows it. The
  loop need not end (with a zero \<^verbatim>\<open>DOWNLOAD_CHECK_INTERVAL\<close> on a clock that moves
  only in \<^verbatim>\<open>time.sleep\<close>), so the result is an option: \<open>None\<close> is a run that never
  returns, \<open>Some (Inl e)\<close> an exception that reaches the caller, \<open>Some (Inr r)\<close> a
  return.
\<close>

partial_function (option) wait_loop ::
  "settings \<Rightarrow> platform \<Rightarrow> (int \<Rightarrow> fs_state) \<Rightarrow> int \<Rightarrow> string list \<Rightarrow> int
     \<Rightarrow> poll_state \<Rightarrow> (exn + outcome) option" where
  "wait_loop cfg m w start_time initial_files timeout s =
     (if double_diff_less m (now s) start_time timeout
      then
        (case poll_once cfg m (w (now s)) initial_files s of
           Continue s' \<Rightarrow> wait_loop cfg m w start_time initial_files timeout s'
         | Return r \<Rightarrow> Some (Inr r)
         | Raise e \<Rightarrow> Some (Inl e))
      else
        Some (Inr \<lparr>ret = None, clock = now s,
                   removed = cleanup (w (now s)) initial_files\<rparr>))"

declare wait_loop.simps [code]

text \<open>
  Source lines 63-66: the clock is read, the baseline is listed (an exception of this
  first listing is not caught), and the loop starts with \<^verbatim>\<open>last_size = -1\<close> and
  \<^verbatim>\<open>stable_time_start = None\<close>.
\<close>

definition get_downloaded_filename ::
  "settings \<Rightarrow> platform \<Rightarrow> (int \<Rightarrow> fs_state) \<Rightarrow> int \<Rightarrow> int
     \<Rightarrow> (exn + outcome) option" where
  "get_downloaded_filename cfg m w start_time timeout =
     (case listdir (w start_time) of
        Inl e \<Rightarrow> Some (Inl e)
      | Inr initial_files \<Rightarrow>
          wait_loop cfg m w start_time initial_files timeout
            \<lparr>now = start_time, last_size = - 1, stable_time_start = None\<rparr>)"

subsection \<open>Notions used to state the properties\<close>

text \<open>
  The size a pass of the loop reads on \<open>fs\<close>: the size of the file it picked, when no
  \<^verbatim>\<open>.crdownload\<close> entry is among the new files and the picked file can be read.
\<close>

definition sampled_size :: "fs_state \<Rightarrow> string list \<Rightarrow> nat option" where
  "sampled_size fs initial_files =
     (case listdir fs of
        Inl e \<Rightarrow> None
      | Inr names \<Rightarrow>
          (case scan_new_files (set_minus names initial_files) None of
             (downloading, potential_filename, active_download_fname) \<Rightarrow>
               if \<not> downloading \<and> truthy potential_filename
               then (case stat fs (the potential_filename) of
                       Size n \<Rightarrow> Some n
                     | _ \<Rightarrow> None)
               else None))"






text \<open>How a run that returns \<open>res\<close> ends in the state \<open>s\<close>.\<close>

definition finished ::
  "settings \<Rightarrow> platform \<Rightarrow> (int \<Rightarrow> fs_state) \<Rightarrow> int \<Rightarrow> string list \<Rightarrow> int
     \<Rightarrow> poll_state \<Rightarrow> exn + outcome \<Rightarrow> bool" where
  "finished cfg m w start_time initial_files timeout s res \<longleftrightarrow>
     (if double_diff_less m (now s) start_time timeout
      then (case poll_once cfg m (w (now s)) initial_files s of
              Continue s' \<Rightarrow> False
            | Return r \<Rightarrow> res = Inr r
            | Raise e \<Rightarrow> res = Inl e)
      else res = Inr \<lparr>ret = None, clock = now s,
                      removed = cleanup (w (now s)) initial_files\<rparr>)"

text \<open>
  The loop invariant of the stability timer: a running timer was started at or after
  \<open>tc\<close>, by a pass that read the positive size \<open>last_size\<close>.
\<close>

definition stable_since ::
  "(int \<Rightarrow> fs_state) \<Rightarrow> string list \<Rightarrow> int \<Rightarrow> poll_state \<Rightarrow> bool" where
  "stable_since w initial_files tc s \<longleftrightarrow>
     tc \<le> now s \<and>
     (case stable_time_start s of
        None \<Rightarrow> True
      | Some t0 \<Rightarrow> tc \<le> t0 \<and> 0 < last_size s \<and>
          sampled_size (w t0) initial_files = Some (nat (last_size s)))"



subsection \<open>Example platforms and directories\<close>

text \<open>
  A clock that moves only in \<^verbatim>\<open>time.sleep\<close> and whose readings subtract exactly
  (readings that are whole seconds do).
\<close>

definition mock_clock :: platform where
  "mock_clock = \<lparr>lag = (\<lambda>t. 0), rounds_below = (\<lambda>a b. False)\<rparr>"

text \<open>A clock on which every pass takes 50 microseconds and differences round below.\<close>

definition busy_clock :: platform where
  "busy_clock = \<lparr>lag = (\<lambda>t. 50), rounds_below = (\<lambda>a b. True)\<rparr>"

definition dir_with :: "(string \<times> fstat) list \<Rightarrow> fs_state" where
  "dir_with entries =
     \<lparr>listdir = Inr (map fst entries),
      stat = (\<lambda>n. case map_of entries n of None \<Rightarrow> Missing | Some st \<Rightarrow> st),
      removable = (\<lambda>n. True)\<rparr>"

definition no_dir :: fs_state where
  "no_dir = \<lparr>listdir = Inl FileNotFoundError, stat = (\<lambda>n. Missing), removable = (\<lambda>n. False)\<rparr>"

text \<open>Nothing is downloaded.\<close>

definition idle_world :: "int \<Rightarrow> fs_state" where
  "idle_world t = dir_with [(''old.txt'', Size 3)]"

text \<open>A complete file of 5 bytes appears 0.1 s after the baseline.\<close>

definition late_file_world :: "int \<Rightarrow> fs_state" where
  "late_file_world t =
     (if 100000 \<le> t then dir_with [(''old.txt'', Size 3), (''a.pdf'', Size 5)]
      else dir_with [(''old.txt'', Size 3)])"

text \<open>The directory is gone from 1 s on.\<close>

definition vanishing_world :: "int \<Rightarrow> fs_state" where
  "vanishing_world t = (if t < 1000000 then dir_with [(''old.txt'', Size 3)] else no_dir)"





text \<open>A file of 500 bytes appears after 0.1 s and has 800 bytes from 2.5 s on.\<close>

definition growing_world :: "int \<Rightarrow> fs_state" where
  "growing_world t =
     (if t < 100000 then dir_with []
      else if t < 2500000 then dir_with [(''a.pdf'', Size 500)]
      else dir_with [(''a.pdf'', Size 800)])"

text \<open>A partial download appears after 2 s and is renamed to its final name at 4 s.\<close>

definition rename_world :: "int \<Rightarrow> fs_state" where
  "rename_world t =
     (if t < 2000000 then dir_with []
      else if t < 4000000 then dir_with [(''report.pdf.crdownload'', Size 1024)]
      else dir_with [(''report.pdf'', Size 1024)])"


section \<open>Lemmas\<close>

subsection \<open>One pass\<close>


lemma scan_potential:
  "scan_new_files xs pot = (False, Some f, a) \<Longrightarrow>
     pot = Some f \<or> (f \<in> set xs \<and> \<not> endswith f ''.crdownload'' \<and> \<not> endswith f ''.tmp'')"
  by (induction xs arbitrary: pot) (auto split: if_splits)


lemma time_sleep_Continue:
  "time_sleep m d s = Continue s' \<longleftrightarrow>
     0 \<le> d \<and> s' = s\<lparr>now := now s + d + int (lag m (now s))\<rparr>"
  by (auto simp: time_sleep_def)

lemma time_sleep_not_Return [simp]: "time_sleep m d s \<noteq> Return r"
  by (simp add: time_sleep_def)

lemma poll_once_Return:
  assumes "poll_once cfg m fs initial_files s = Return r" and "ret r = Some f"
  shows "clock r = now s \<and> removed r = [] \<and>
         (\<exists>names n t0. listdir fs = Inr names \<and> f \<in> set (set_minus names initial_files) \<and>
            \<not> endswith f ''.crdownload'' \<and> \<not> endswith f ''.tmp'' \<and>
            stat fs f = Size n \<and> 0 < n \<and> int n = last_size s \<and>
            stable_time_start s = Some t0 \<and> DOWNLOAD_STABILITY_TIME cfg \<le> now s - t0 \<and>
            sampled_size fs initial_files = Some n)"
  using assms
  by (auto simp: poll_once_def sampled_size_def Let_def truthy_def double_diff_less_def
      split: sum.splits if_splits prod.splits fstat.splits option.splits
      dest: scan_potential)


lemma poll_once_Continue:
  assumes "poll_once cfg m fs initial_files s = Continue s'"
  shows "now s \<le> now s' \<and>
         (stable_time_start s' = None \<or>
          (stable_time_start s' = stable_time_start s \<and> last_size s' = last_size s) \<or>
          (stable_time_start s' = Some (now s) \<and> last_size s' = last_size s \<and>
           0 < last_size s \<and> sampled_size fs initial_files = Some (nat (last_size s))))"
  using assms
  by (auto simp: poll_once_def sampled_size_def Let_def time_sleep_Continue retry_delay_def
      split: sum.splits if_splits prod.splits fstat.splits option.splits)



lemma missing_file_restarts:
  assumes "listdir fs = Inr names"
    and "scan_new_files (set_minus names initial_files) None = (False, Some p, a)"
    and "p \<noteq> []" and "stat fs p = Missing"
  shows "poll_once cfg m fs initial_files s =
           time_sleep m (DOWNLOAD_CHECK_INTERVAL cfg)
             (s\<lparr>last_size := - 1, stable_time_start := None\<rparr>)"
proof -
  from assms(2) have "set_minus names initial_files \<noteq> []" by auto
  with assms show ?thesis by (simp add: poll_once_def truthy_def)
qed


subsection \<open>Partial correctness of the loop\<close>

lemma wait_loop_invariant:
  assumes run: "wait_loop cfg m w start_time initial_files timeout s = Some res"
    and init: "I s"
    and step: "\<And>s s'. I s \<Longrightarrow> double_diff_less m (now s) start_time timeout \<Longrightarrow>
            poll_once cfg m (w (now s)) initial_files s = Continue s' \<Longrightarrow> I s'"
  shows "\<exists>s'. I s' \<and> finished cfg m w start_time initial_files timeout s' res"
proof -
  define P where "P = (\<lambda>(c::settings) (m'::platform) (w'::int \<Rightarrow> fs_state) (st::int)
      (ini::string list) (tmo::int) (s::poll_state) (y::exn + outcome).
      c = cfg \<and> m' = m \<and> w' = w \<and> st = start_time \<and> ini = initial_files \<and> tmo = timeout
        \<longrightarrow> I s \<longrightarrow>
        (\<exists>s'. I s' \<and> finished cfg m w start_time initial_files timeout s' y))"
  have "P cfg m w start_time initial_files timeout s res"
  proof (rule wait_loop.raw_induct[where P = P, OF _ run])
    fix wl c m' w' st ini tmo s y
    assume IH: "\<And>c m' w' st ini tmo s y.
        wl c m' w' st ini tmo s = Some y \<Longrightarrow> P c m' w' st ini tmo s y"
      and body: "(if double_diff_less m' (now s) st tmo
           then case poll_once c m' (w' (now s)) ini s of
                  Continue s' \<Rightarrow> wl c m' w' st ini tmo s'
                | Return r \<Rightarrow> Some (Inr r)
                | Raise e \<Rightarrow> Some (Inl e)
           else Some (Inr \<lparr>ret = None, clock = now s,
                           removed = cleanup (w' (now s)) ini\<rparr>)) = Some y"
    show "P c m' w' st ini tmo s y"
      unfolding P_def
    proof (intro impI, elim conjE)
      assume eqs: "c = cfg" "m' = m" "w' = w" "st = start_time" "ini = initial_files"
          "tmo = timeout"
        and I: "I s"
      show "\<exists>s'. I s' \<and> finished cfg m w start_time initial_files timeout s' y"
      proof (cases "double_diff_less m (now s) start_time timeout")
        case False
        with body I eqs have "finished cfg m w start_time initial_files timeout s y"
          by (auto simp: finished_def)
        with I show ?thesis by blast
      next
        case True
        show ?thesis
        proof (cases "poll_once cfg m (w (now s)) initial_files s")
          case (Continue s')
          with True body eqs
          have "wl cfg m w start_time initial_files timeout s' = Some y"
            by simp
          from IH[OF this] have "P cfg m w start_time initial_files timeout s' y" .
          moreover have "I s'" using I step True Continue by blast
          ultimately show ?thesis by (simp add: P_def)
        next
          case (Return r)
          with True body eqs have "finished cfg m w start_time initial_files timeout s y"
            by (auto simp: finished_def)
          with I show ?thesis by blast
        next
          case (Raise e)
          with True body eqs have "finished cfg m w start_time initial_files timeout s y"
            by (auto simp: finished_def)
          with I show ?thesis by blast
        qed
      qed
    qed
  qed
  with init show ?thesis by (simp add: P_def)
qed

lemma stable_since_step:
  assumes "stable_since w initial_files tc s"
    and "poll_once cfg m (w (now s)) initial_files s = Continue s'"
  shows "stable_since w initial_files tc s'"
  using poll_once_Continue[OF assms(2)] assms(1)
  by (auto simp: stable_since_def split: option.splits)

lemma completed_window:
  assumes "wait_loop cfg m w start_time initial_files timeout s = Some (Inr r)"
    and "ret r = Some f"
    and "stable_since w initial_files tc s"
  shows "\<exists>t0 n. tc \<le> t0 \<and> t0 + DOWNLOAD_STABILITY_TIME cfg \<le> clock r \<and> 0 < n \<and>
           sampled_size (w t0) initial_files = Some n \<and>
           sampled_size (w (clock r)) initial_files = Some n \<and>
           stat (w (clock r)) f = Size n"
proof -
  from wait_loop_invariant[where I = "stable_since w initial_files tc", OF assms(1) assms(3)]
  obtain s' where inv: "stable_since w initial_files tc s'"
    and fin: "finished cfg m w start_time initial_files timeout s' (Inr r)"
    using stable_since_step by blast
  from fin assms(2) have ret: "poll_once cfg m (w (now s')) initial_files s' = Return r"
    by (auto simp: finished_def split: if_splits step.splits)
  from poll_once_Return[OF ret assms(2)] obtain n t0 where
    c: "clock r = now s'" and n: "stat (w (now s')) f = Size n" "0 < n" "int n = last_size s'"
    and t0: "stable_time_start s' = Some t0" "DOWNLOAD_STABILITY_TIME cfg \<le> now s' - t0"
    and smp: "sampled_size (w (now s')) initial_files = Some n"
    by blast
  from n(3) have "nat (last_size s') = n" by (simp flip: n(3))
  with inv t0 have "tc \<le> t0" "sampled_size (w t0) initial_files = Some n"
    by (auto simp: stable_since_def)
  with c n t0 smp show ?thesis
    by (intro exI[of _ t0] exI[of _ n]) auto
qed

subsection \<open>Runs that are sure to return\<close>













subsection \<open>The cleanup\<close>




section \<open>The properties\<close>

lemmas run_defs =
  get_downloaded_filename_def poll_once_def cleanup_def set_minus_def endswith_def
  truthy_def time_sleep_def retry_delay_def module_settings_def MAX_WAIT_TIME_def
  double_diff_less_def mock_clock_def busy_clock_def dir_with_def no_dir_def

lemma completed_by_poll:
  assumes "wait_loop cfg m w start_time initial_files timeout s = Some (Inr r)"
    and "ret r = Some f"
  shows "\<exists>s'. poll_once cfg m (w (now s')) initial_files s' = Return r"
proof -
  from wait_loop_invariant[where I = "\<lambda>s. True", OF assms(1)]
  obtain s' where "finished cfg m w start_time initial_files timeout s' (Inr r)"
    by blast
  with assms(2) have "poll_once cfg m (w (now s')) initial_files s' = Return r"
    by (auto simp: finished_def split: if_splits step.splits)
  then show ?thesis ..
qed

lemma completed_after_sleep:
  assumes run: "wait_loop cfg m w start_time initial_files timeout s = Some (Inr r)"
    and ret: "ret r = Some f"
    and poll: "poll_once cfg m (w (now s)) initial_files s = time_sleep m d s1"
    and s1: "stable_time_start s1 = None" "now s1 = now s"
  shows "\<exists>t0 n. now s \<le> t0 \<and> t0 + DOWNLOAD_STABILITY_TIME cfg \<le> clock r \<and> 0 < n \<and>
           sampled_size (w t0) initial_files = Some n \<and>
           sampled_size (w (clock r)) initial_files = Some n \<and>
           stat (w (clock r)) f = Size n"
proof -
  let ?s' = "s1\<lparr>now := now s1 + d + int (lag m (now s1))\<rparr>"
  from run ret have lt: "double_diff_less m (now s) start_time timeout"
    by (subst (asm) wait_loop.simps) (auto split: if_splits)
  with run poll have d: "0 \<le> d"
    and run': "wait_loop cfg m w start_time initial_files timeout ?s' = Some (Inr r)"
    by (subst (asm) wait_loop.simps, auto simp: time_sleep_def split: if_splits)+
  have "stable_since w initial_files (now s) ?s'"
    using s1 d by (simp add: stable_since_def)
  from completed_window[OF run' ret this] show ?thesis .
qed

text \<open>
  How the model behaves where the source depends on the platform. With a poll interval
  of zero the call still times out on a clock that moves during a pass. And where the
  clock readings are 0.1 s, 1.1 s, ... and their double differences round below, the
  file of \<open>rename_world\<close>, whose timer starts at 5.1 s, is not returned at 8.1 s
  (\<^verbatim>\<open>8.1 - 5.1\<close> is below 3) but one pass later.
\<close>

lemma zero_interval_times_out:
  "get_downloaded_filename (module_settings\<lparr>DOWNLOAD_CHECK_INTERVAL := 0\<rparr>) busy_clock
      idle_world 0 120 =
     Some (Inr \<lparr>ret = None, clock = 150, removed = []\<rparr>)"
  by (simp add: run_defs wait_loop.simps idle_world_def)

lemma double_rounding_delays_return:
  "get_downloaded_filename module_settings mock_clock rename_world 100000 20000000 =
     Some (Inr \<lparr>ret = Some ''report.pdf'', clock = 8100000, removed = []\<rparr>) \<and>
   get_downloaded_filename module_settings (mock_clock\<lparr>rounds_below := \<lambda>a b. True\<rparr>)
       rename_world 100000 20000000 =
     Some (Inr \<lparr>ret = Some ''report.pdf'', clock = 9100000, removed = []\<rparr>)"
proof -
  have roots: "splitext_root ''report.pdf.crdownload'' = ''report.pdf''"
    by code_simp
  show ?thesis
    by (simp add: run_defs wait_loop.simps rename_world_def roots)
qed







text \<open>
  \<^bold>\<open>C3\<close>, as amended. When a pass of the loop finds the directory gone
  (\<^verbatim>\<open>FileNotFoundError\<close> from the listing), the call returns \<^verbatim>\<open>None\<close> in that
  pass: no further listing, no cleanup, no exception.
\<close>

theorem vanished_directory_ends_wait:
  assumes "now s - start_time < timeout"
    and "listdir (w (now s)) = Inl FileNotFoundError"
  shows "wait_loop cfg m w start_time initial_files timeout s =
           Some (Inr \<lparr>ret = None, clock = now s, removed = []\<rparr>)"
  using assms by (subst wait_loop.simps) (simp add: poll_once_def double_diff_less_def)

theorem vanished_directory_ends_wait_witness:
  "now \<lparr>now = 1000000, last_size = - 1, stable_time_start = None\<rparr> - 0 < MAX_WAIT_TIME \<and>
   listdir (vanishing_world (now \<lparr>now = 1000000, last_size = - 1, stable_time_start = None\<rparr>)) =
     Inl FileNotFoundError \<and>
   wait_loop module_settings mock_clock vanishing_world 0 [''old.txt''] MAX_WAIT_TIME
       \<lparr>now = 1000000, last_size = - 1, stable_time_start = None\<rparr> =
     Some (Inr \<lparr>ret = None, clock = 1000000, removed = []\<rparr>)"
  using vanished_directory_ends_wait
    [of "\<lparr>now = 1000000, last_size = - 1, stable_time_start = None\<rparr>" 0 MAX_WAIT_TIME
        vanishing_world module_settings mock_clock "[''old.txt'']"]
  by (simp add: vanishing_world_def no_dir_def MAX_WAIT_TIME_def)

text \<open>
  C3 as stated fails: when the directory of \<open>vanishing_world\<close> is gone at 1 s, the call
  does not raise; it returns \<^verbatim>\<open>None\<close>, the value it also returns on a timeout.
\<close>

theorem vanished_directory_returns_None:
  "listdir (vanishing_world 1000000) = Inl FileNotFoundError \<and>
   get_downloaded_filename module_settings mock_clock vanishing_world 0 MAX_WAIT_TIME =
     Some (Inr \<lparr>ret = None, clock = 1000000, removed = []\<rparr>)"
  by (simp add: run_defs wait_loop.simps vanishing_world_def)


text \<open>
  \<^bold>\<open>C4\<close>. A name is returned only in a pass that has just read a non-zero size for
  that file: at the clock of the return the file exists, can be read and is not empty.
  So a file that stays at zero bytes is never returned, however long it stays so.
\<close>

theorem completed_file_not_empty:
  assumes "get_downloaded_filename cfg m w start_time timeout = Some (Inr r)"
    and "ret r = Some f"
  shows "\<exists>n. stat (w (clock r)) f = Size n \<and> 0 < n"
proof -
  from assms(1) obtain initial_files where
    run: "wait_loop cfg m w start_time initial_files timeout
            \<lparr>now = start_time, last_size = - 1, stable_time_start = None\<rparr> = Some (Inr r)"
    by (auto simp: get_downloaded_filename_def split: sum.splits)
  from completed_by_poll[OF run assms(2)] obtain s' where
    "poll_once cfg m (w (now s')) initial_files s' = Return r" ..
  from poll_once_Return[OF this assms(2)] show ?thesis by auto
qed

theorem completed_file_not_empty_witness:
  "get_downloaded_filename module_settings mock_clock late_file_world 0 10000000 =
     Some (Inr \<lparr>ret = Some ''a.pdf'', clock = 5000000, removed = []\<rparr>) \<and>
   ret \<lparr>ret = Some ''a.pdf'', clock = 5000000, removed = []\<rparr> = Some ''a.pdf'' \<and>
   (\<exists>n. stat (late_file_world (clock \<lparr>ret = Some ''a.pdf'', clock = 5000000, removed = []\<rparr>))
          ''a.pdf'' = Size n \<and> 0 < n)"
proof -
  have run: "get_downloaded_filename module_settings mock_clock late_file_world 0 10000000 =
     Some (Inr \<lparr>ret = Some ''a.pdf'', clock = 5000000, removed = []\<rparr>)"
    by (simp add: run_defs wait_loop.simps late_file_world_def)
  from completed_file_not_empty[OF run, of "''a.pdf''"] run show ?thesis by simp
qed

text \<open>
  \<^bold>\<open>C5\<close>. A pass that reads a size different from the one read before clears the timer
  and records the new size; and once such a change has been seen at the clock \<open>now s\<close>, a
  name is returned no earlier than a full stability time after it.
\<close>

theorem size_change_restarts_window:
  assumes "sampled_size (w (now s)) initial_files = Some n"
    and "int n \<noteq> last_size s"
  shows "poll_once cfg m (w (now s)) initial_files s =
           time_sleep m (DOWNLOAD_CHECK_INTERVAL cfg)
             (s\<lparr>last_size := int n, stable_time_start := None\<rparr>) \<and>
         (\<forall>r f. wait_loop cfg m w start_time initial_files timeout s = Some (Inr r) \<and>
                 ret r = Some f \<longrightarrow>
                 now s + DOWNLOAD_STABILITY_TIME cfg \<le> clock r)"
proof -
  have poll: "poll_once cfg m (w (now s)) initial_files s =
           time_sleep m (DOWNLOAD_CHECK_INTERVAL cfg)
             (s\<lparr>last_size := int n, stable_time_start := None\<rparr>)"
    using assms
    by (auto simp: sampled_size_def poll_once_def Let_def truthy_def
        split: sum.splits prod.splits if_splits fstat.splits option.splits)
  have "now s + DOWNLOAD_STABILITY_TIME cfg \<le> clock r"
    if "wait_loop cfg m w start_time initial_files timeout s = Some (Inr r)" "ret r = Some f"
    for r f
    using completed_after_sleep[OF that poll] by auto
  with poll show ?thesis by blast
qed

text \<open>
  C5 at work in \<open>growing_world\<close>: the pass at 3 s holds the size 500 with a timer
  running since 2 s and reads 800; the name is returned at 7 s, not before 6 s.
\<close>

theorem size_change_restarts_window_witness:
  "sampled_size (growing_world
      (now \<lparr>now = 3000000, last_size = 500, stable_time_start = Some 2000000\<rparr>)) []
     = Some 800 \<and>
   int 800 \<noteq> last_size \<lparr>now = 3000000, last_size = 500, stable_time_start = Some 2000000\<rparr> \<and>
   poll_once module_settings mock_clock (growing_world 3000000) []
       \<lparr>now = 3000000, last_size = 500, stable_time_start = Some 2000000\<rparr> =
     Continue \<lparr>now = 4000000, last_size = 800, stable_time_start = None\<rparr> \<and>
   wait_loop module_settings mock_clock growing_world 0 [] 10000000
       \<lparr>now = 3000000, last_size = 500, stable_time_start = Some 2000000\<rparr> =
     Some (Inr \<lparr>ret = Some ''a.pdf'', clock = 7000000, removed = []\<rparr>) \<and>
   3000000 + DOWNLOAD_STABILITY_TIME module_settings \<le> 7000000"
proof -
  have smp: "sampled_size (growing_world
      (now \<lparr>now = 3000000, last_size = 500, stable_time_start = Some 2000000\<rparr>)) []
        = Some 800"
    by (simp add: sampled_size_def growing_world_def run_defs)
  have run: "wait_loop module_settings mock_clock growing_world 0 [] 10000000
       \<lparr>now = 3000000, last_size = 500, stable_time_start = Some 2000000\<rparr> =
     Some (Inr \<lparr>ret = Some ''a.pdf'', clock = 7000000, removed = []\<rparr>)"
    by (simp add: run_defs wait_loop.simps growing_world_def)
  from size_change_restarts_window
      [where w = growing_world and initial_files = "[]" and n = 800
         and s = "\<lparr>now = 3000000, last_size = 500, stable_time_start = Some 2000000\<rparr>"
         and cfg = module_settings and m = mock_clock and start_time = 0
         and timeout = 10000000]
    run smp
  show ?thesis
    by (simp add: time_sleep_def module_settings_def mock_clock_def)
qed








text \<open>
  \<^bold>\<open>C8\<close>, as amended. The outcome can change with the poll interval, but for every
  poll interval a name is returned only when two passes that lie at least the stability
  time apart on the clock, the later one being the returning pass, have read the same
  non-zero size: the window is clock time, not a number of samples.
\<close>

theorem completion_needs_clock_window:
  assumes "get_downloaded_filename cfg m w start_time timeout = Some (Inr r)"
    and "ret r = Some f"
  shows "\<exists>initial_files t0 n.
           listdir (w start_time) = Inr initial_files \<and>
           start_time \<le> t0 \<and> t0 + DOWNLOAD_STABILITY_TIME cfg \<le> clock r \<and> 0 < n \<and>
           sampled_size (w t0) initial_files = Some n \<and>
           sampled_size (w (clock r)) initial_files = Some n"
proof -
  let ?s = "\<lparr>now = start_time, last_size = - 1, stable_time_start = None\<rparr>"
  from assms(1) obtain initial_files where base: "listdir (w start_time) = Inr initial_files"
    and run: "wait_loop cfg m w start_time initial_files timeout ?s = Some (Inr r)"
    by (auto simp: get_downloaded_filename_def split: sum.splits)
  have "stable_since w initial_files start_time ?s"
    by (simp add: stable_since_def)
  from completed_window[OF run assms(2) this] base show ?thesis by blast
qed

theorem completion_needs_clock_window_witness:
  "get_downloaded_filename (module_settings\<lparr>DOWNLOAD_CHECK_INTERVAL := 2000000\<rparr>) mock_clock
       late_file_world 0 10000000 =
     Some (Inr \<lparr>ret = Some ''a.pdf'', clock = 8000000, removed = []\<rparr>) \<and>
   (\<exists>initial_files t0 n.
      listdir (late_file_world 0) = Inr initial_files \<and>
      0 \<le> t0 \<and> t0 + 3000000 \<le> 8000000 \<and> 0 < n \<and>
      sampled_size (late_file_world t0) initial_files = Some n \<and>
      sampled_size (late_file_world 8000000) initial_files = Some n)"
proof -
  have run: "get_downloaded_filename (module_settings\<lparr>DOWNLOAD_CHECK_INTERVAL := 2000000\<rparr>)
      mock_clock late_file_world 0 10000000 =
        Some (Inr \<lparr>ret = Some ''a.pdf'', clock = 8000000, removed = []\<rparr>)"
    by (simp add: run_defs wait_loop.simps late_file_world_def)
  from completion_needs_clock_window[OF run, of "''a.pdf''"] run show ?thesis
    by (simp add: module_settings_def)
qed

text \<open>
  C8 as stated fails: on the same directory history and with the same timeout of 6 s, a
  poll interval of 1 s returns the file at 5 s and a poll interval of 2 s times out.
\<close>

theorem poll_interval_changes_outcome:
  "get_downloaded_filename (module_settings\<lparr>DOWNLOAD_CHECK_INTERVAL := 1000000\<rparr>) mock_clock
       late_file_world 0 6000000 =
     Some (Inr \<lparr>ret = Some ''a.pdf'', clock = 5000000, removed = []\<rparr>) \<and>
   get_downloaded_filename (module_settings\<lparr>DOWNLOAD_CHECK_INTERVAL := 2000000\<rparr>) mock_clock
       late_file_world 0 6000000 =
     Some (Inr \<lparr>ret = None, clock = 6000000, removed = []\<rparr>)"
  by (simp add: run_defs wait_loop.simps late_file_world_def)




text \<open>
  \<^bold>\<open>C10\<close>. A returned name is not in the baseline listing and ends neither in
  \<^verbatim>\<open>.crdownload\<close> nor in \<^verbatim>\<open>.tmp\<close>.
\<close>

theorem completed_name_new_and_final:
  assumes "get_downloaded_filename cfg m w start_time timeout = Some (Inr r)"
    and "ret r = Some f"
  shows "\<exists>initial_files. listdir (w start_time) = Inr initial_files \<and>
           f \<notin> set initial_files \<and>
           \<not> endswith f ''.crdownload'' \<and> \<not> endswith f ''.tmp''"
proof -
  from assms(1) obtain initial_files where base: "listdir (w start_time) = Inr initial_files"
    and run: "wait_loop cfg m w start_time initial_files timeout
            \<lparr>now = start_time, last_size = - 1, stable_time_start = None\<rparr> = Some (Inr r)"
    by (auto simp: get_downloaded_filename_def split: sum.splits)
  from completed_by_poll[OF run assms(2)] obtain s' where
    "poll_once cfg m (w (now s')) initial_files s' = Return r" ..
  from poll_once_Return[OF this assms(2)] obtain names where
    "f \<in> set (set_minus names initial_files)"
    "\<not> endswith f ''.crdownload''" "\<not> endswith f ''.tmp''"
    by auto
  with base show ?thesis by (auto simp: set_minus_def)
qed

theorem completed_name_new_and_final_witness:
  "get_downloaded_filename module_settings mock_clock rename_world 0 10000000 =
     Some (Inr \<lparr>ret = Some ''report.pdf'', clock = 8000000, removed = []\<rparr>) \<and>
   (\<exists>initial_files. listdir (rename_world 0) = Inr initial_files \<and>
      ''report.pdf'' \<notin> set initial_files \<and>
      \<not> endswith ''report.pdf'' ''.crdownload'' \<and> \<not> endswith ''report.pdf'' ''.tmp'')"
proof -
  have roots: "splitext_root ''report.pdf.crdownload'' = ''report.pdf''"
    by code_simp
  have run: "get_downloaded_filename module_settings mock_clock rename_world 0 10000000 =
     Some (Inr \<lparr>ret = Some ''report.pdf'', clock = 8000000, removed = []\<rparr>)"
    by (simp add: run_defs wait_loop.simps rename_world_def roots)
  from completed_name_new_and_final[OF run, of "''report.pdf''"] run show ?thesis
    by simp
qed

end
